theory Spec2Isabelle
  imports Main "HOL-Library.Sublist"
begin

section \<open>ado-pipeline-doc: the data the program handles\<close>

text \<open>
  The values \<^verbatim>\<open>yaml.safe_load\<close> hands to the program: null, booleans, integers, strings,
  sequences and mappings. A mapping is a Python dict; it is kept as an association list in
  insertion order, looked up by the first entry with the key. Keys are strings: the
  program only ever looks up string keys. Floats, dates and binary scalars are left out.
\<close>

datatype yaml =
    YNull
  | YBool bool
  | YInt int
  | YStr string
  | YSeq "yaml list"
  | YMap "(string \<times> yaml) list"

type_synonym dict = "(string \<times> yaml) list"

text \<open>
  Every \<^verbatim>\<open>raise\<close> of \<^verbatim>\<open>ado-pipeline-doc.py\<close> is one constructor. The program raises
  \<^verbatim>\<open>ADOPipelineDocException\<close> with a message at each site; the constructor names are the
  kinds of the specification:
  \<^item> \<open>NoInputFile\<close>: "Input file must be provided to ADOPipelineDoc." (line 52)
  \<^item> \<open>ConfigNotFound\<close>: "The file ... was not found." (line 109)
  \<^item> \<open>AccessDenied\<close>: "Permission denied for file ..." (line 112)
  \<^item> \<open>NotADictionary\<close>, \<open>KeyNotFound\<close>: the two raises of \<^verbatim>\<open>prettyObject\<close> (lines 135, 139)
  \<^item> \<open>EmptyConfig\<close>: "YAML file is empty or contains null data." (line 165)
  \<^item> \<open>NoParameters\<close>: "YAML file has no parameters." (line 171)
  \<^item> \<open>MalformedConfig\<close>: "Error parsing YAML file: ..." (line 176)
  \<^item> \<open>MissingRequiredField\<close>: "Parameter missing 'name' or 'type': ..." (line 220)
  \<^item> \<open>DanglingEndMarker\<close>: "No start comment found in ..." (line 296)
  \<^item> \<open>DanglingStartMarker\<close>: "No end comment found in ..." (line 300)
  \<open>AttributeError\<close>, \<open>TypeError\<close>, \<open>OSError\<close> and \<open>UnicodeDecodeError\<close> are Python's
  own exceptions, which the program neither raises itself nor catches.
\<close>

datatype error =
    NoInputFile
  | ConfigNotFound
  | AccessDenied
  | NotADictionary
  | KeyNotFound
  | EmptyConfig
  | NoParameters
  | MalformedConfig
  | MissingRequiredField
  | DanglingEndMarker
  | DanglingStartMarker
  | AttributeError
  | TypeError
  | OSError
  | UnicodeDecodeError

text \<open>Whether an error is an \<^verbatim>\<open>ADOPipelineDocException\<close>, the only exception the program
  raises on purpose and the only one \<^verbatim>\<open>__main__\<close> catches.\<close>

fun is_taxonomy :: "error \<Rightarrow> bool" where
  "is_taxonomy AttributeError = False"
| "is_taxonomy TypeError = False"
| "is_taxonomy OSError = False"
| "is_taxonomy UnicodeDecodeError = False"
| "is_taxonomy _ = True"

subsection \<open>Python's truth value, dict and string operations\<close>

text \<open>\<^verbatim>\<open>bool(v)\<close>: None, False, 0, the empty string, list and dict are falsy.\<close>

fun truthy :: "yaml \<Rightarrow> bool" where
  "truthy YNull = False"
| "truthy (YBool b) = b"
| "truthy (YInt i) = (i \<noteq> 0)"
| "truthy (YStr s) = (s \<noteq> [])"
| "truthy (YSeq xs) = (xs \<noteq> [])"
| "truthy (YMap kvs) = (kvs \<noteq> [])"

text \<open>\<^verbatim>\<open>d.get(k, dflt)\<close>; \<^verbatim>\<open>d.get(k)\<close> is \<open>dict_get d k YNull\<close>.\<close>

definition dict_get :: "dict \<Rightarrow> string \<Rightarrow> yaml \<Rightarrow> yaml" where
  "dict_get d k dflt = (case map_of d k of None \<Rightarrow> dflt | Some v \<Rightarrow> v)"

text \<open>\<^verbatim>\<open>d[k] = v\<close>: an existing key keeps its place, a new key goes last.\<close>

fun dict_set :: "string \<Rightarrow> 'v \<Rightarrow> (string \<times> 'v) list \<Rightarrow> (string \<times> 'v) list" where
  "dict_set k v [] = [(k, v)]"
| "dict_set k v ((k', v') # d) = (if k' = k then (k, v) # d else (k', v') # dict_set k v d)"

text \<open>\<^verbatim>\<open>d.update(other)\<close>: every item of \<open>other\<close> is stored in \<open>d\<close>, in order.\<close>

fun dict_update :: "dict \<Rightarrow> dict \<Rightarrow> dict" where
  "dict_update d [] = d"
| "dict_update d ((k, v) # other) = dict_update (dict_set k v d) other"

text \<open>\<^verbatim>\<open>d.pop(k, None)\<close>, for its effect on \<open>d\<close>.\<close>

definition dict_pop :: "string \<Rightarrow> dict \<Rightarrow> dict" where
  "dict_pop k d = filter (\<lambda>kv. fst kv \<noteq> k) d"

definition dict_keys :: "dict \<Rightarrow> string set" where
  "dict_keys d = set (map fst d)"

text \<open>\<^verbatim>\<open>sep.join(xs)\<close>.\<close>

fun join :: "string \<Rightarrow> string list \<Rightarrow> string" where
  "join sep [] = []"
| "join sep [x] = x"
| "join sep (x # y # ys) = x @ sep @ join sep (y # ys)"

definition nl :: string where
  "nl = [CHR 0x0A]"

text \<open>\<^verbatim>\<open>s.find(sub)\<close>: the lowest index at which \<open>sub\<close> occurs in \<open>s\<close>, or -1.\<close>

fun find_from :: "string \<Rightarrow> string \<Rightarrow> nat \<Rightarrow> int" where
  "find_from sub [] i = (if sub = [] then int i else -1)"
| "find_from sub (c # cs) i =
     (if prefix sub (c # cs) then int i else find_from sub cs (Suc i))"

definition str_find :: "string \<Rightarrow> string \<Rightarrow> int" where
  "str_find s sub = find_from sub s 0"

text \<open>The slices \<^verbatim>\<open>s[:i]\<close> and \<^verbatim>\<open>s[i:]\<close>; a negative index counts from the end.\<close>

definition slice_to :: "string \<Rightarrow> int \<Rightarrow> string" where
  "slice_to s i = (if i < 0 then take (nat (int (length s) + i)) s else take (nat i) s)"

definition slice_from :: "string \<Rightarrow> int \<Rightarrow> string" where
  "slice_from s i = (if i < 0 then drop (nat (int (length s) + i)) s else drop (nat i) s)"

text \<open>\<^verbatim>\<open>s.strip()\<close> over the ASCII whitespace characters, and \<^verbatim>\<open>s.replace('\n', '<br/>')\<close>.\<close>

definition is_space :: "char \<Rightarrow> bool" where
  "is_space c = (c \<in> set [CHR 0x20, CHR 0x09, CHR 0x0A, CHR 0x0B, CHR 0x0C, CHR 0x0D,
                          CHR 0x1C, CHR 0x1D, CHR 0x1E, CHR 0x1F])"

definition strip :: "string \<Rightarrow> string" where
  "strip s = rev (dropWhile is_space (rev (dropWhile is_space s)))"

definition replace_nl :: "string \<Rightarrow> string" where
  "replace_nl s = concat (map (\<lambda>c. if c = CHR 0x0A then ''<br/>'' else [c]) s)"

subsection \<open>The file system and the console\<close>

text \<open>
  A path names at most one node, a directory or a file. A file has the characters stored in
  it, whether the process may read it, and whether its bytes decode in the encoding of the
  locale. \<open>stdout\<close> holds what \<^verbatim>\<open>print\<close> has written, one entry per call. Three facts of
  the platform are part of the world: \<^verbatim>\<open>os.linesep\<close>, the path that
  \<^verbatim>\<open>tempfile.NamedTemporaryFile\<close> creates (\<open>None\<close> when no temporary directory is usable,
  which is a \<^verbatim>\<open>FileNotFoundError\<close>), and whether \<^verbatim>\<open>os.replace\<close> of the temporary file onto
  the target succeeds (it does not across file systems or without permission).
\<close>

datatype fnode = Directory | File (readable: bool) (decodable: bool) (contents: string)

record world =
  files :: "string \<rightharpoonup> fnode"
  stdout :: "string list"
  linesep :: string
  temp_name :: "string option"
  replace_ok :: bool

text \<open>
  Reading in text mode (\<^verbatim>\<open>open(path, 'r')\<close>, universal newlines): every CR LF and every
  other CR is read as LF. Writing in text mode: every LF is stored as \<^verbatim>\<open>os.linesep\<close>.
\<close>

fun universal_newlines :: "string \<Rightarrow> string" where
  "universal_newlines [] = []"
| "universal_newlines [c] = (if c = CHR 0x0D then [CHR 0x0A] else [c])"
| "universal_newlines (c # d # ds) =
     (if c = CHR 0x0D \<and> d = CHR 0x0A then CHR 0x0A # universal_newlines ds
      else if c = CHR 0x0D then CHR 0x0A # universal_newlines (d # ds)
      else c # universal_newlines (d # ds))"

definition to_disk :: "string \<Rightarrow> string \<Rightarrow> string" where
  "to_disk sep s = concat (map (\<lambda>c. if c = CHR 0x0A then sep else [c]) s)"

text \<open>
  \<^verbatim>\<open>readFile\<close> (lines 91-113): \<^verbatim>\<open>FileNotFoundError\<close> and \<^verbatim>\<open>PermissionError\<close> of \<^verbatim>\<open>open\<close>
  are turned into \<^verbatim>\<open>ADOPipelineDocException\<close>; a directory (\<^verbatim>\<open>IsADirectoryError\<close>, an
  \<^verbatim>\<open>OSError\<close>) and bytes that do not decode (\<^verbatim>\<open>UnicodeDecodeError\<close> of \<^verbatim>\<open>read\<close>) are not
  caught. The result is the text after the translation of line ends.
\<close>

definition readFile :: "world \<Rightarrow> string \<Rightarrow> error + string" where
  "readFile w file_path =
     (case files w file_path of
        None \<Rightarrow> Inl ConfigNotFound
      | Some Directory \<Rightarrow> Inl OSError
      | Some (File r d raw) \<Rightarrow>
          if \<not> r then Inl AccessDenied
          else if \<not> d then Inl UnicodeDecodeError
          else Inr (universal_newlines raw))"

subsection \<open>The markers\<close>

definition mdStart :: string where
  "mdStart = ''ADOPipelineDoc Start''"

definition mdEnd :: string where
  "mdEnd = ''ADOPipelineDoc End''"

definition mdStartStr :: string where
  "mdStartStr = ''<!-- '' @ mdStart @ '' -->''"

definition mdEndStr :: string where
  "mdEndStr = ''<!-- '' @ mdEnd @ '' -->''"

subsection \<open>The sink: \<^verbatim>\<open>printTable\<close> and \<^verbatim>\<open>writeFile\<close>\<close>

definition printTable :: "string list \<Rightarrow> world \<Rightarrow> world" where
  "printTable table_rows w = w\<lparr>stdout := stdout w @ [join nl table_rows @ nl]\<rparr>"

text \<open>
  \<^verbatim>\<open>writeFile\<close> (lines 273-321). \<^verbatim>\<open>readFile\<close> has already turned a missing target into
  \<^verbatim>\<open>ADOPipelineDocException\<close>, which leaves \<^verbatim>\<open>writeFile\<close>: the handler of
  \<^verbatim>\<open>FileNotFoundError\<close> at line 319 is reached only when no temporary file can be created,
  and then writes the table alone over the target. Otherwise the new text is written to the
  temporary file, which \<^verbatim>\<open>os.replace\<close> moves onto the target; when that fails the
  \<^verbatim>\<open>OSError\<close> leaves \<^verbatim>\<open>writeFile\<close>, the target is as it was and the temporary file stays
  (\<^verbatim>\<open>delete=False\<close>). A file this process has written is one it may read and decode.
  Writes to an open file are taken to succeed.
\<close>

definition writeFile :: "string option \<Rightarrow> string list \<Rightarrow> world \<Rightarrow> (error + unit) \<times> world" where
  "writeFile mdFile table_rows w =
     (case mdFile of
        None \<Rightarrow> (Inr (), printTable table_rows w)
      | Some md \<Rightarrow>
          (case readFile w md of
             Inl e \<Rightarrow> (Inl e, w)
           | Inr content \<Rightarrow>
               (let start_index = str_find content mdStartStr;
                    end_index = str_find content mdEndStr
                in if start_index = -1 \<and> end_index > -1 then (Inl DanglingEndMarker, w)
                   else if start_index > -1 \<and> end_index = -1 then (Inl DanglingStartMarker, w)
                   else
                     (case temp_name w of
                        None \<Rightarrow>
                          (Inr (), w\<lparr>files := (files w)(md \<mapsto>
                             File True True (to_disk (linesep w) (join nl table_rows @ nl)))\<rparr>)
                      | Some temp_file_name \<Rightarrow>
                          (let new_content =
                             (if start_index = -1 \<and> end_index = -1
                              then content @ nl @ join nl table_rows
                              else slice_to content start_index @ join nl table_rows @
                                   slice_from content (end_index + int (length mdEndStr)));
                               temp_file = File True True (to_disk (linesep w) new_content)
                           in if replace_ok w
                              then (Inr (), w\<lparr>files :=
                                      ((files w)(temp_file_name := None))(md \<mapsto> temp_file)\<rparr>)
                              else (Inl OSError, w\<lparr>files :=
                                      (files w)(temp_file_name \<mapsto> temp_file)\<rparr>))))))"

subsection \<open>The loader: \<^verbatim>\<open>parseYAML\<close>\<close>

text \<open>
  \<^verbatim>\<open>parseYAML\<close> (lines 149-176). \<^verbatim>\<open>yaml.safe_load\<close> belongs to PyYAML, not to the
  repository: it is the parameter \<open>safe_load\<close>, with \<open>None\<close> for a \<^verbatim>\<open>yaml.YAMLError\<close>.
  \<^verbatim>\<open>self.data.get\<close> exists on a dict only; on any other value the attribute lookup raises
  \<^verbatim>\<open>AttributeError\<close>, which the \<^verbatim>\<open>except yaml.YAMLError\<close> clause does not catch.
  The result is \<^verbatim>\<open>self.parameters\<close>.
\<close>

definition parseYAML :: "(string \<Rightarrow> yaml option) \<Rightarrow> world \<Rightarrow> string \<Rightarrow> error + yaml" where
  "parseYAML safe_load w yamlFile =
     (case readFile w yamlFile of
        Inl e \<Rightarrow> Inl e
      | Inr content \<Rightarrow>
          (case safe_load content of
             None \<Rightarrow> Inl MalformedConfig
           | Some data \<Rightarrow>
               (case data of
                  YNull \<Rightarrow> Inl EmptyConfig
                | YMap d \<Rightarrow>
                    (let params = dict_get d ''parameters'' (YSeq [])
                     in if \<not> truthy params then Inl NoParameters else Inr params)
                | _ \<Rightarrow> Inl AttributeError)))"

subsection \<open>The row builder and the renderer: \<^verbatim>\<open>processData\<close>\<close>

text \<open>
  \<^verbatim>\<open>prettyObject\<close> (lines 116-146). \<^verbatim>\<open>yaml.dump(_, default_flow_style=False)\<close> is the
  parameter \<open>dump\<close>.
\<close>

definition prettyObject :: "(yaml \<Rightarrow> string) \<Rightarrow> yaml \<Rightarrow> string option \<Rightarrow> error + string" where
  "prettyObject dump obj key =
     (case key of
        Some k \<Rightarrow>
          (case obj of
             YMap d \<Rightarrow>
               (case map_of d k of
                  None \<Rightarrow> Inl KeyNotFound
                | Some v \<Rightarrow> Inr (replace_nl (strip (dump v))))
           | _ \<Rightarrow> Inl NotADictionary)
      | None \<Rightarrow> Inr (replace_nl (strip (dump obj))))"

definition heading_order :: "string list" where
  "heading_order = [''required'', ''name'', ''type'', ''displayName'', ''values'', ''default'']"

definition heading_separator :: "(string \<times> string) list" where
  "heading_separator =
     [(''required'', '':-:''), (''name'', '':--''), (''type'', '':--''),
      (''displayName'', '':--''), (''values'', '':--''), (''default'', '':--'')]"

definition object_template :: dict where
  "object_template =
     [(''required'', YStr ''Yes''), (''name'', YStr []), (''type'', YStr []),
      (''displayName'', YStr []), (''values'', YStr []), (''default'', YStr [])]"

definition use_col_init :: "(string \<times> bool) list" where
  "use_col_init = [(''displayName'', False), (''values'', False), (''default'', False)]"

text \<open>
  The body of the first loop (lines 219-242), for one \<open>param\<close>: the new \<open>use_col\<close> and the
  row that is appended. \<^verbatim>\<open>param.get\<close> on a value that is not a dict raises
  \<^verbatim>\<open>AttributeError\<close>. \<open>YStr []\<close> is the empty string.
\<close>

definition build_row ::
  "(yaml \<Rightarrow> string) \<Rightarrow> (string \<times> bool) list \<Rightarrow> yaml \<Rightarrow> error + ((string \<times> bool) list \<times> dict)" where
  "build_row dump use_col param =
     (case param of
        YMap p \<Rightarrow>
          if \<not> truthy (dict_get p ''name'' YNull) \<or> \<not> truthy (dict_get p ''type'' YNull)
          then Inl MissingRequiredField
          else
            (let uc1 = (if truthy (dict_get p ''displayName'' (YStr []))
                        then dict_set ''displayName'' True use_col else use_col);
                 uc2 = (if truthy (dict_get p ''values'' (YStr []))
                        then dict_set ''values'' True uc1 else uc1);
                 row0 = dict_update object_template p;
                 uc3 = (if truthy (dict_get p ''default'' (YStr []))
                        then dict_set ''default'' True uc2 else uc2);
                 row1 = (if truthy (dict_get p ''default'' (YStr []))
                         then dict_set ''required'' (YStr []) row0 else row0)
             in case (if dict_get p ''type'' YNull = YStr ''object'' \<and>
                         truthy (dict_get p ''default'' YNull)
                      then (case prettyObject dump param (Some ''default'') of
                              Inl e \<Rightarrow> Inl e
                            | Inr s \<Rightarrow> Inr (dict_set ''default'' (YStr s) row1))
                      else Inr row1) of
                  Inl e \<Rightarrow> Inl e
                | Inr row2 \<Rightarrow>
                    (case (if truthy (dict_get p ''values'' YNull)
                           then (case prettyObject dump param (Some ''values'') of
                                   Inl e \<Rightarrow> Inl e
                                 | Inr s \<Rightarrow> Inr (dict_set ''values'' (YStr s) row2))
                           else Inr row2) of
                       Inl e \<Rightarrow> Inl e
                     | Inr row3 \<Rightarrow> Inr (uc3, row3)))
      | _ \<Rightarrow> Inl AttributeError)"

text \<open>The first loop (line 218): it stops at the first exception.\<close>

fun build_rows ::
  "(yaml \<Rightarrow> string) \<Rightarrow> (string \<times> bool) list \<Rightarrow> dict list \<Rightarrow> yaml list \<Rightarrow>
   error + ((string \<times> bool) list \<times> dict list)" where
  "build_rows dump use_col rows [] = Inr (use_col, rows)"
| "build_rows dump use_col rows (param # params) =
     (case build_row dump use_col param of
        Inl e \<Rightarrow> Inl e
      | Inr (use_col', row) \<Rightarrow> build_rows dump use_col' (rows @ [row]) params)"

text \<open>
  What \<^verbatim>\<open>for param in self.parameters\<close> iterates over. \<^verbatim>\<open>parseYAML\<close> only checks that the
  value is truthy: a list gives its elements, a dict its keys, a string its characters,
  and a number or a boolean is not iterable.
\<close>

fun iter_params :: "yaml \<Rightarrow> error + yaml list" where
  "iter_params (YSeq xs) = Inr xs"
| "iter_params (YMap d) = Inr (map (\<lambda>kv. YStr (fst kv)) d)"
| "iter_params (YStr s) = Inr (map (\<lambda>c. YStr [c]) s)"
| "iter_params _ = Inl TypeError"

text \<open>
  The second loop (lines 244-248), over the items of \<open>use_col\<close> in order: an unused column
  leaves \<open>heading_order\<close> and every row. \<open>use_col\<close> has the three keys of
  \<open>use_col_init\<close>, all of them in \<open>heading_order\<close>, so \<^verbatim>\<open>heading_order.remove\<close> finds its key.
\<close>

fun drop_unused ::
  "(string \<times> bool) list \<Rightarrow> string list \<times> dict list \<Rightarrow> string list \<times> dict list" where
  "drop_unused [] hr = hr"
| "drop_unused ((key, value) # items) (order, rows) =
     drop_unused items
       (if \<not> value then (remove1 key order, map (dict_pop key) rows) else (order, rows))"

text \<open>
  \<^verbatim>\<open>str(v)\<close>: a string is itself; for any other value it is Python's built-in text of the
  value, the parameter \<open>repr\<close>.
\<close>

definition py_str :: "(yaml \<Rightarrow> string) \<Rightarrow> yaml \<Rightarrow> string" where
  "py_str repr v = (case v of YStr s \<Rightarrow> s | _ \<Rightarrow> repr v)"

definition row_text :: "string list \<Rightarrow> string" where
  "row_text cells = ''| '' @ join '' | '' cells @ '' |''"

text \<open>\<^verbatim>\<open>row_data\<close> of line 264: the cells of one row, in the order of the surviving columns.\<close>

definition row_data :: "(yaml \<Rightarrow> string) \<Rightarrow> string list \<Rightarrow> dict \<Rightarrow> string list" where
  "row_data repr order row = map (\<lambda>key. py_str repr (dict_get row key (YStr []))) order"

definition separator_of :: "string \<Rightarrow> string" where
  "separator_of key = (case map_of heading_separator key of Some s \<Rightarrow> s | None \<Rightarrow> [])"

text \<open>Lines 250-268: the lines of the table, between the markers when a target is given.\<close>

definition render_table ::
  "(yaml \<Rightarrow> string) \<Rightarrow> string option \<Rightarrow> string list \<Rightarrow> dict list \<Rightarrow> string list" where
  "render_table repr mdFile order rows =
     (if mdFile \<noteq> None then [mdStartStr] else []) @
     [row_text order, row_text (map separator_of order)] @
     map (\<lambda>row. row_text (row_data repr order row)) rows @
     (if mdFile \<noteq> None then [mdEndStr] else [])"

text \<open>\<^verbatim>\<open>processData\<close> up to line 248: the surviving columns and the rows as they are rendered.\<close>

definition processData_rows :: "(yaml \<Rightarrow> string) \<Rightarrow> yaml \<Rightarrow> error + (string list \<times> dict list)" where
  "processData_rows dump parameters =
     (case iter_params parameters of
        Inl e \<Rightarrow> Inl e
      | Inr params \<Rightarrow>
          (case build_rows dump use_col_init [] params of
             Inl e \<Rightarrow> Inl e
           | Inr (use_col, rows) \<Rightarrow> Inr (drop_unused use_col (heading_order, rows))))"

text \<open>\<^verbatim>\<open>processData\<close> (lines 179-270); the result is \<^verbatim>\<open>self.table_rows\<close>.\<close>

definition processData ::
  "(yaml \<Rightarrow> string) \<Rightarrow> (yaml \<Rightarrow> string) \<Rightarrow> string option \<Rightarrow> yaml \<Rightarrow> error + string list" where
  "processData dump repr mdFile parameters =
     (case processData_rows dump parameters of
        Inl e \<Rightarrow> Inl e
      | Inr (order, rows) \<Rightarrow> Inr (render_table repr mdFile order rows))"

subsection \<open>The whole run: \<^verbatim>\<open>ADOPipelineDoc.__init__\<close>\<close>

text \<open>Lines 45-57: load, build and render, then write; an exception ends the run where it
  is raised, with the world as it is then.\<close>

definition ADOPipelineDoc ::
  "(string \<Rightarrow> yaml option) \<Rightarrow> (yaml \<Rightarrow> string) \<Rightarrow> (yaml \<Rightarrow> string) \<Rightarrow>
   string option \<Rightarrow> string option \<Rightarrow> world \<Rightarrow> (error + unit) \<times> world" where
  "ADOPipelineDoc safe_load dump repr yamlFile mdFile w =
     (case yamlFile of
        None \<Rightarrow> (Inl NoInputFile, w)
      | Some yf \<Rightarrow>
          (case parseYAML safe_load w yf of
             Inl e \<Rightarrow> (Inl e, w)
           | Inr parameters \<Rightarrow>
               (case processData dump repr mdFile parameters of
                  Inl e \<Rightarrow> (Inl e, w)
                | Inr table_rows \<Rightarrow> writeFile mdFile table_rows w)))"

section \<open>Vocabulary of the statements\<close>

text \<open>
  A parameter the first loop accepts: a mapping whose \<^verbatim>\<open>name\<close> and \<^verbatim>\<open>type\<close> are both
  present and truthy (the test of line 219).
\<close>

definition valid_param :: "yaml \<Rightarrow> bool" where
  "valid_param p =
     (case p of
        YMap d \<Rightarrow> truthy (dict_get d ''name'' YNull) \<and> truthy (dict_get d ''type'' YNull)
      | _ \<Rightarrow> False)"

text \<open>The test of lines 223, 226 and 232 on a parameter and a field \<open>k\<close>: the key is
  present and its value is truthy.\<close>

definition populates :: "string \<Rightarrow> yaml \<Rightarrow> bool" where
  "populates k p = (case p of YMap d \<Rightarrow> truthy (dict_get d k (YStr [])) | _ \<Rightarrow> False)"

definition column_used :: "string \<Rightarrow> yaml list \<Rightarrow> bool" where
  "column_used k params = list_ex (populates k) params"

text \<open>The columns in their fixed order, an optional one only when some parameter
  populates it.\<close>

definition surviving :: "yaml list \<Rightarrow> string list" where
  "surviving params =
     [''required'', ''name'', ''type''] @
     filter (\<lambda>k. column_used k params) [''displayName'', ''values'', ''default'']"

text \<open>The row the loop body builds from one parameter alone.\<close>

definition param_row :: "(yaml \<Rightarrow> string) \<Rightarrow> yaml \<Rightarrow> dict" where
  "param_row dump p = (case build_row dump use_col_init p of Inr (_, row) \<Rightarrow> row | Inl _ \<Rightarrow> [])"

text \<open>A row without the entries of the columns that are not in \<open>order\<close>; entries under
  other keys stay.\<close>

definition kept :: "string list \<Rightarrow> dict \<Rightarrow> dict" where
  "kept order row = filter (\<lambda>kv. fst kv \<in> set order \<or> fst kv \<notin> set heading_order) row"

text \<open>\<open>use_col\<close> with its three flags.\<close>

definition use_col_of :: "bool \<Rightarrow> bool \<Rightarrow> bool \<Rightarrow> (string \<times> bool) list" where
  "use_col_of a b c = [(''displayName'', a), (''values'', b), (''default'', c)]"

text \<open>
  Populating a field as sections 4.2 and 8 of the specification word it: the field is
  present and not empty. Null and the empty string, sequence and mapping are empty;
  \<^verbatim>\<open>false\<close> and \<^verbatim>\<open>0\<close> are values. It is compared with \<open>populates\<close> below.
\<close>

fun nonempty :: "yaml \<Rightarrow> bool" where
  "nonempty YNull = False"
| "nonempty (YBool b) = True"
| "nonempty (YInt i) = True"
| "nonempty (YStr s) = (s \<noteq> [])"
| "nonempty (YSeq xs) = (xs \<noteq> [])"
| "nonempty (YMap kvs) = (kvs \<noteq> [])"

definition spec_populates :: "string \<Rightarrow> yaml \<Rightarrow> bool" where
  "spec_populates k p =
     (case p of
        YMap d \<Rightarrow> (case map_of d k of None \<Rightarrow> False | Some v \<Rightarrow> nonempty v)
      | _ \<Rightarrow> False)"

text \<open>The lines of a printed text, \<^verbatim>\<open>s.split('\n')\<close>.\<close>

fun split_lines :: "string \<Rightarrow> string list" where
  "split_lines [] = [[]]"
| "split_lines (c # cs) =
     (if c = CHR 0x0A then [] # split_lines cs
      else (case split_lines cs of l # ls \<Rightarrow> (c # l) # ls | [] \<Rightarrow> [[c]]))"

text \<open>
  The merge as section 4.4 of the specification words it, for a document with both markers:
  the span from the start marker through the end of the line that holds the end marker is
  replaced by the block. It is compared with \<open>writeFile\<close> below.
\<close>

definition spec_replace_span :: "string \<Rightarrow> string \<Rightarrow> string" where
  "spec_replace_span content block =
     (let s = nat (str_find content mdStartStr);
          e = nat (str_find content mdEndStr);
          eol = e + length (takeWhile (\<lambda>c. c \<noteq> CHR 0x0A) (drop e content))
      in take s content @ block @ drop eol content)"

text \<open>A world with one readable file and an empty console, where lines end in LF and the
  temporary file can be created and moved; and the parameter list of the examples.\<close>

definition doc_world :: "string \<Rightarrow> string \<Rightarrow> world" where
  "doc_world path text =
     \<lparr>files = [path \<mapsto> File True True text], stdout = [], linesep = nl,
      temp_name = Some ''/tmp/tmpdoc'', replace_ok = True\<rparr>"

definition example_params :: "yaml list" where
  "example_params =
     [YMap [(''name'', YStr ''env''), (''type'', YStr ''string'')],
      YMap [(''name'', YStr ''replicas''), (''type'', YStr ''number''), (''default'', YInt 3)]]"



text \<open>A loader that returns the given document whatever the text, and a world with a
  configuration file and a target document.\<close>

definition example_load :: "yaml \<Rightarrow> string \<Rightarrow> yaml option" where
  "example_load data text = Some data"

definition example_world :: world where
  "example_world =
     \<lparr>files = [''pipeline.yml'' \<mapsto> File True True ''parameters: []'',
               ''README.md'' \<mapsto> File True True ''# Pipeline''],
      stdout = [], linesep = nl, temp_name = Some ''/tmp/tmpdoc'', replace_ok = True\<rparr>"

section \<open>Searching strings and the two markers\<close>

text \<open>\<open>str_find\<close> returns -1 exactly when the text does not occur; otherwise the index it
  returns is a place where the text starts.\<close>

lemma find_from_lower: "find_from sub s i = -1 \<or> int i \<le> find_from sub s i"
  by (induction s arbitrary: i) (auto, force)

lemma find_from_found:
  "find_from sub s i = int (i + k) \<Longrightarrow> k \<le> length s \<and> prefix sub (drop k s)"
proof (induction s arbitrary: i k)
  case Nil
  then show ?case by (auto split: if_splits)
next
  case (Cons c cs)
  show ?case
  proof (cases "prefix sub (c # cs)")
    case True
    with Cons.prems show ?thesis by simp
  next
    case False
    with Cons.prems have f: "find_from sub cs (Suc i) = int (i + k)" by simp
    have "k \<noteq> 0" using f find_from_lower [of sub cs "Suc i"] by auto
    then obtain k' where k: "k = Suc k'" by (cases k) auto
    with f have "find_from sub cs (Suc i) = int (Suc i + k')" by simp
    from Cons.IH [OF this] k show ?thesis by simp
  qed
qed

lemma find_from_none:
  "find_from sub s i = -1 \<Longrightarrow> k \<le> length s \<Longrightarrow> \<not> prefix sub (drop k s)"
proof (induction s arbitrary: i k)
  case Nil
  then show ?case by (auto split: if_splits)
next
  case (Cons c cs)
  show ?case
  proof (cases k)
    case 0
    with Cons.prems show ?thesis by (auto split: if_splits)
  next
    case (Suc k')
    with Cons.prems Cons.IH [of "Suc i" k'] show ?thesis by (auto split: if_splits)
  qed
qed

lemma str_find_found:
  "str_find s sub = int k \<Longrightarrow> k \<le> length s \<and> prefix sub (drop k s)"
  using find_from_found [of sub s 0 k] by (simp add: str_find_def)

lemma str_find_range: "str_find s sub = -1 \<or> 0 \<le> str_find s sub"
  using find_from_lower [of sub s 0] by (simp add: str_find_def)

lemma str_find_absent:
  "str_find s sub = -1 \<longleftrightarrow> (\<nexists>pre post. s = pre @ sub @ post)"
proof
  assume a: "str_find s sub = -1"
  show "\<nexists>pre post. s = pre @ sub @ post"
  proof
    assume "\<exists>pre post. s = pre @ sub @ post"
    then obtain pre post where s: "s = pre @ sub @ post" by blast
    have "\<not> prefix sub (drop (length pre) s)"
      using find_from_none [of sub s 0 "length pre"] a s by (simp add: str_find_def)
    with s show False by simp
  qed
next
  assume n: "\<nexists>pre post. s = pre @ sub @ post"
  show "str_find s sub = -1"
  proof (rule ccontr)
    assume "str_find s sub \<noteq> -1"
    with str_find_range [of s sub] obtain k where k: "str_find s sub = int k"
      by (metis nonneg_int_cases)
    from str_find_found [OF k] obtain r where "drop k s = sub @ r" by (auto simp: prefix_def)
    then have "s = take k s @ sub @ r" by (metis append_take_drop_id)
    with n show False by blast
  qed
qed

lemma mdStartStr_eq: "mdStartStr = ''<!-- ADOPipelineDoc Start -->''"
  by (simp add: mdStartStr_def mdStart_def)

lemma mdEndStr_eq: "mdEndStr = ''<!-- ADOPipelineDoc End -->''"
  by (simp add: mdEndStr_def mdEnd_def)

lemma length_mdStartStr: "length mdStartStr = 29"
  by (simp add: mdStartStr_eq)

lemma length_mdEndStr: "length mdEndStr = 27"
  by (simp add: mdEndStr_eq)

lemma markers_not_prefix: "\<not> prefix mdEndStr mdStartStr"
  by (simp add: mdStartStr_eq mdEndStr_eq)

lemma end_head_not_in_start_tail: "hd mdEndStr \<notin> set (tl mdStartStr)"
  by (simp add: mdStartStr_eq mdEndStr_eq)

lemma prefix_nth:
  assumes "prefix p (drop i xs)" and "k < length p"
  shows "xs ! (i + k) = p ! k"
proof -
  from assms(1) obtain r where r: "drop i xs = p @ r" by (auto simp: prefix_def)
  with assms(2) have "i \<le> length xs" by (cases "i \<le> length xs") auto
  then have "xs ! (i + k) = drop i xs ! k" by simp
  with r assms(2) show ?thesis by (simp add: nth_append)
qed

text \<open>An occurrence of the end marker at or after the start of an occurrence of the start
  marker begins after that start marker has ended: the two cannot overlap.\<close>

lemma markers_do_not_overlap:
  assumes ps: "prefix mdStartStr (drop s c)" and pe: "prefix mdEndStr (drop e c)" and le: "s \<le> e"
  shows "s + length mdStartStr \<le> e"
proof (rule ccontr)
  assume "\<not> s + length mdStartStr \<le> e"
  then have lt: "e - s < length mdStartStr" by (simp add: length_mdStartStr)
  show False
  proof (cases "e = s")
    case True
    from ps pe True have "prefix mdEndStr mdStartStr \<or> prefix mdStartStr mdEndStr"
      using prefix_same_cases by blast
    moreover have "\<not> prefix mdStartStr mdEndStr"
      using prefix_length_le [of mdStartStr mdEndStr] by (auto simp: length_mdStartStr length_mdEndStr)
    ultimately show False using markers_not_prefix by blast
  next
    case False
    with le have pos: "0 < e - s" by simp
    have "c ! (s + (e - s)) = mdStartStr ! (e - s)" using prefix_nth [OF ps lt] .
    moreover have "c ! (e + 0) = mdEndStr ! 0" using prefix_nth [OF pe, of 0] by (simp add: length_mdEndStr)
    ultimately have "mdStartStr ! (e - s) = mdEndStr ! 0" using le by simp
    moreover have "mdEndStr ! 0 = hd mdEndStr" by (simp add: mdEndStr_eq)
    moreover have "mdStartStr ! (e - s) = tl mdStartStr ! (e - s - 1)"
      using pos by (simp add: mdStartStr_eq nth_Cons')
    moreover have "tl mdStartStr ! (e - s - 1) \<in> set (tl mdStartStr)"
      using lt pos by (intro nth_mem) (simp add: length_mdStartStr)
    ultimately show False using end_head_not_in_start_tail by simp
  qed
qed

section \<open>The sink\<close>

text \<open>A text without CR is read as it is stored, and where lines end in LF it is stored as
  it is written; \<open>readFile\<close> returns the translated text of a readable, decodable file.\<close>

lemma universal_newlines_no_cr: "CHR 0x0D \<notin> set s \<Longrightarrow> universal_newlines s = s"
  by (induction s rule: universal_newlines.induct) auto

lemma to_disk_nl: "to_disk nl s = s"
  by (induction s) (auto simp: to_disk_def nl_def)

lemma readFile_text:
  "readFile w p = Inr content \<longleftrightarrow>
   (\<exists>raw. files w p = Some (File True True raw) \<and> content = universal_newlines raw)"
  by (auto simp: readFile_def split: option.splits fnode.splits)

text \<open>A document that holds only one of the two markers is refused, and nothing is written.\<close>

lemma writeFile_no_start_marker:
  assumes "readFile w md = Inr content"
    and "\<nexists>pre post. content = pre @ mdStartStr @ post"
    and "\<exists>pre post. content = pre @ mdEndStr @ post"
  shows "writeFile (Some md) table_rows w = (Inl DanglingEndMarker, w)"
proof -
  have s: "str_find content mdStartStr = -1" using assms(2) by (simp add: str_find_absent)
  have "str_find content mdEndStr \<noteq> -1" using assms(3) by (simp add: str_find_absent)
  with str_find_range [of content mdEndStr] have "str_find content mdEndStr > -1" by auto
  with s assms(1) show ?thesis by (simp add: writeFile_def Let_def)
qed

lemma writeFile_no_end_marker:
  assumes "readFile w md = Inr content"
    and "\<exists>pre post. content = pre @ mdStartStr @ post"
    and "\<nexists>pre post. content = pre @ mdEndStr @ post"
  shows "writeFile (Some md) table_rows w = (Inl DanglingStartMarker, w)"
proof -
  have e: "str_find content mdEndStr = -1" using assms(3) by (simp add: str_find_absent)
  have "str_find content mdStartStr \<noteq> -1" using assms(2) by (simp add: str_find_absent)
  with str_find_range [of content mdStartStr] have "str_find content mdStartStr > -1" by auto
  with e assms(1) show ?thesis by (simp add: writeFile_def Let_def)
qed

text \<open>
  Claim C1. The statement is that merging fails with \<open>DanglingEndMarker\<close> whenever an
  end marker has no start marker before it, and with \<open>DanglingStartMarker\<close> whenever a
  start marker has no end marker after it, in particular when both markers are present
  and the end marker comes first. \<open>writeFile\<close> tests only whether a marker is absent
  (lines 295 and 299), as the two lemmas above show. For a document with the end marker
  before the start marker neither test fires: the call succeeds and stores
  \<^verbatim>\<open>content[:start_index]\<close>, the block and \<^verbatim>\<open>content[end_index:]\<close>, which keeps both old
  markers and repeats the text between them.
\<close>

theorem writeFile_reversed_markers:
  "writeFile (Some ''README.md'') [mdStartStr, ''| required | name | type |'', mdEndStr]
     (doc_world ''README.md'' ''<!-- ADOPipelineDoc End -->text<!-- ADOPipelineDoc Start -->'') =
   (Inr (),
    doc_world ''README.md''
      (''<!-- ADOPipelineDoc End -->text'' @
       ''<!-- ADOPipelineDoc Start -->'' @ nl @ ''| required | name | type |'' @ nl @
       ''<!-- ADOPipelineDoc End -->'' @
       ''text<!-- ADOPipelineDoc Start -->''))"
  by (simp add: writeFile_def readFile_def doc_world_def str_find_def mdStartStr_eq mdEndStr_eq
      slice_to_def slice_from_def nl_def Let_def to_disk_def)

text \<open>
  Claim C2, as the program has it. Let \<open>content\<close> be the text of a readable, decodable
  target as \<^verbatim>\<open>readFile\<close> returns it, with the first start marker at \<open>s\<close>, the first end
  marker at \<open>e\<close> and \<open>s \<le> e\<close>, and let the temporary file be created and moved onto
  the target. Then \<open>content\<close> is the text before \<open>s\<close>, the start marker, a middle part,
  the end marker and the text after the end marker, and the merge stores the text before
  \<open>s\<close>, the block and the text after the end marker, written in text mode. The replaced
  span ends with the end marker itself, not with its line. The parts outside the span are
  kept as text: when the stored document has no CR and lines end in LF on the platform,
  they are kept byte for byte.
\<close>

theorem writeFile_replaces_span:
  assumes f: "files w md = Some (File True True raw)"
    and c: "content = universal_newlines raw"
    and fs: "str_find content mdStartStr = int s"
    and fe: "str_find content mdEndStr = int e"
    and le: "s \<le> e"
    and tn: "temp_name w = Some tmp"
    and ok: "replace_ok w"
  shows "content = take s content @ mdStartStr @
                   take (e - (s + length mdStartStr)) (drop (s + length mdStartStr) content) @
                   mdEndStr @ drop (e + length mdEndStr) content \<and>
         writeFile (Some md) table_rows w =
           (Inr (), w\<lparr>files := ((files w)(tmp := None))(md \<mapsto>
              File True True (to_disk (linesep w)
                (take s content @ join nl table_rows @
                 drop (e + length mdEndStr) content)))\<rparr>) \<and>
         (CHR 0x0D \<notin> set raw \<and> linesep w = nl \<longrightarrow>
            writeFile (Some md) table_rows w =
              (Inr (), w\<lparr>files := ((files w)(tmp := None))(md \<mapsto>
                 File True True (take s raw @ join nl table_rows @
                                 drop (e + length mdEndStr) raw))\<rparr>))"
proof -
  have rd: "readFile w md = Inr content" using f c by (simp add: readFile_def)
  from str_find_found [OF fs] have ps: "prefix mdStartStr (drop s content)" by simp
  from str_find_found [OF fe] have pe: "prefix mdEndStr (drop e content)" by simp
  from markers_do_not_overlap [OF ps pe le] have far: "s + length mdStartStr \<le> e" .
  from ps have d1: "drop s content = mdStartStr @ drop (s + length mdStartStr) content"
    by (auto simp: prefix_def) (metis add.commute append_eq_conv_conj drop_drop)
  from pe have d2: "drop e content = mdEndStr @ drop (e + length mdEndStr) content"
    by (auto simp: prefix_def) (metis add.commute append_eq_conv_conj drop_drop)
  have d3: "drop (s + length mdStartStr) content =
            take (e - (s + length mdStartStr)) (drop (s + length mdStartStr) content) @ drop e content"
    using far append_take_drop_id [of "e - (s + length mdStartStr)" "drop (s + length mdStartStr) content"]
    by simp
  have "content = take s content @ drop s content" by simp
  also have "\<dots> = take s content @ mdStartStr @
                   take (e - (s + length mdStartStr)) (drop (s + length mdStartStr) content) @
                   mdEndStr @ drop (e + length mdEndStr) content"
    using d1 d2 d3 by simp
  finally have split: "content = take s content @ mdStartStr @
                   take (e - (s + length mdStartStr)) (drop (s + length mdStartStr) content) @
                   mdEndStr @ drop (e + length mdEndStr) content" .
  have w: "writeFile (Some md) table_rows w =
           (Inr (), w\<lparr>files := ((files w)(tmp := None))(md \<mapsto>
              File True True (to_disk (linesep w)
                (take s content @ join nl table_rows @
                 drop (e + length mdEndStr) content)))\<rparr>)"
    using rd fs fe tn ok
    by (simp add: writeFile_def Let_def slice_to_def slice_from_def nat_add_distrib)
  have b: "CHR 0x0D \<notin> set raw \<and> linesep w = nl \<longrightarrow>
            writeFile (Some md) table_rows w =
              (Inr (), w\<lparr>files := ((files w)(tmp := None))(md \<mapsto>
                 File True True (take s raw @ join nl table_rows @
                                 drop (e + length mdEndStr) raw))\<rparr>)"
    using w c by (auto simp: universal_newlines_no_cr to_disk_nl)
  from split w b show ?thesis by blast
qed

theorem writeFile_replaces_span_witness:
  "files (doc_world ''README.md''
            ''intro <!-- ADOPipelineDoc Start -->old<!-- ADOPipelineDoc End --> outro'') ''README.md'' =
     Some (File True True ''intro <!-- ADOPipelineDoc Start -->old<!-- ADOPipelineDoc End --> outro'') \<and>
   universal_newlines ''intro <!-- ADOPipelineDoc Start -->old<!-- ADOPipelineDoc End --> outro'' =
     ''intro <!-- ADOPipelineDoc Start -->old<!-- ADOPipelineDoc End --> outro'' \<and>
   str_find ''intro <!-- ADOPipelineDoc Start -->old<!-- ADOPipelineDoc End --> outro'' mdStartStr = int 6 \<and>
   str_find ''intro <!-- ADOPipelineDoc Start -->old<!-- ADOPipelineDoc End --> outro'' mdEndStr = int 38 \<and>
   (6::nat) \<le> 38 \<and>
   CHR 0x0D \<notin> set ''intro <!-- ADOPipelineDoc Start -->old<!-- ADOPipelineDoc End --> outro'' \<and>
   linesep (doc_world ''README.md''
            ''intro <!-- ADOPipelineDoc Start -->old<!-- ADOPipelineDoc End --> outro'') = nl \<and>
   writeFile (Some ''README.md'') [mdStartStr, ''T'', mdEndStr]
     (doc_world ''README.md'' ''intro <!-- ADOPipelineDoc Start -->old<!-- ADOPipelineDoc End --> outro'') =
   (Inr (), doc_world ''README.md''
      (''intro <!-- ADOPipelineDoc Start -->'' @ nl @ ''T'' @ nl @ ''<!-- ADOPipelineDoc End --> outro''))"
proof -
  let ?c = "''intro <!-- ADOPipelineDoc Start -->old<!-- ADOPipelineDoc End --> outro''"
  let ?w = "doc_world ''README.md'' ?c"
  have f: "files ?w ''README.md'' = Some (File True True ?c)"
    by (simp add: doc_world_def)
  have cr: "CHR 0x0D \<notin> set ?c" by simp
  have u: "?c = universal_newlines ?c" using universal_newlines_no_cr [OF cr] by simp
  have fs: "str_find ?c mdStartStr = int 6"
    by (simp add: str_find_def mdStartStr_eq)
  have fe: "str_find ?c mdEndStr = int 38"
    by (simp add: str_find_def mdEndStr_eq)
  have le: "(6::nat) \<le> 38" by simp
  have tn: "temp_name ?w = Some ''/tmp/tmpdoc''" by (simp add: doc_world_def)
  have ok: "replace_ok ?w" by (simp add: doc_world_def)
  have ls: "linesep ?w = nl" by (simp add: doc_world_def)
  from writeFile_replaces_span [OF f u fs fe le tn ok, of "[mdStartStr, ''T'', mdEndStr]"] cr ls
  have "writeFile (Some ''README.md'') [mdStartStr, ''T'', mdEndStr] ?w =
        (Inr (), ?w\<lparr>files := ((files ?w)(''/tmp/tmpdoc'' := None))(''README.md'' \<mapsto>
              File True True (take 6 ?c @ join nl [mdStartStr, ''T'', mdEndStr] @
                         drop (38 + length mdEndStr) ?c))\<rparr>)"
    by blast
  then have "writeFile (Some ''README.md'') [mdStartStr, ''T'', mdEndStr] ?w =
     (Inr (), doc_world ''README.md''
      (''intro <!-- ADOPipelineDoc Start -->'' @ nl @ ''T'' @ nl @ ''<!-- ADOPipelineDoc End --> outro''))"
    by (simp add: doc_world_def mdStartStr_eq mdEndStr_eq nl_def)
  with f u fs fe le cr ls show ?thesis by metis
qed

text \<open>
  Claim C2 as it is worded fails at four inputs. In the first, text follows the end
  marker on its line: the program keeps that text, the worded merge
  \<open>spec_replace_span\<close> removes it. In the second, the end marker comes first: the
  program keeps both old markers and repeats the text between them. In the third, a line
  before the start marker ends in CR LF: the program stores it with LF. In the fourth,
  \<^verbatim>\<open>os.replace\<close> fails: the run ends with \<open>OSError\<close> and the document is as it was.
\<close>

theorem writeFile_span_counterexample:
  "files (snd (writeFile (Some ''README.md'') [mdStartStr, ''T'', mdEndStr]
      (doc_world ''README.md'' ''<!-- ADOPipelineDoc Start -->old<!-- ADOPipelineDoc End --> tail''))) ''README.md''
     = Some (File True True
         (''<!-- ADOPipelineDoc Start -->'' @ nl @ ''T'' @ nl @ ''<!-- ADOPipelineDoc End --> tail'')) \<and>
   spec_replace_span ''<!-- ADOPipelineDoc Start -->old<!-- ADOPipelineDoc End --> tail''
      (join nl [mdStartStr, ''T'', mdEndStr])
     = ''<!-- ADOPipelineDoc Start -->'' @ nl @ ''T'' @ nl @ ''<!-- ADOPipelineDoc End -->'' \<and>
   files (snd (writeFile (Some ''README.md'') [mdStartStr, ''T'', mdEndStr]
      (doc_world ''README.md'' ''<!-- ADOPipelineDoc End -->text<!-- ADOPipelineDoc Start -->''))) ''README.md''
     = Some (File True True
         (''<!-- ADOPipelineDoc End -->text<!-- ADOPipelineDoc Start -->'' @ nl @ ''T'' @ nl @
          ''<!-- ADOPipelineDoc End -->text<!-- ADOPipelineDoc Start -->'')) \<and>
   spec_replace_span ''<!-- ADOPipelineDoc End -->text<!-- ADOPipelineDoc Start -->''
      (join nl [mdStartStr, ''T'', mdEndStr])
     = ''<!-- ADOPipelineDoc End -->text<!-- ADOPipelineDoc Start -->'' @ nl @ ''T'' @ nl @
       ''<!-- ADOPipelineDoc End -->'' \<and>
   files (snd (writeFile (Some ''README.md'') [mdStartStr, ''T'', mdEndStr]
      (doc_world ''README.md''
         (''intro'' @ [CHR 0x0D, CHR 0x0A] @
          ''<!-- ADOPipelineDoc Start -->old<!-- ADOPipelineDoc End -->'')))) ''README.md''
     = Some (File True True
         (''intro'' @ [CHR 0x0A] @
          ''<!-- ADOPipelineDoc Start -->'' @ nl @ ''T'' @ nl @ ''<!-- ADOPipelineDoc End -->'')) \<and>
   spec_replace_span
      (''intro'' @ [CHR 0x0D, CHR 0x0A] @ ''<!-- ADOPipelineDoc Start -->old<!-- ADOPipelineDoc End -->'')
      (join nl [mdStartStr, ''T'', mdEndStr])
     = ''intro'' @ [CHR 0x0D, CHR 0x0A] @
       ''<!-- ADOPipelineDoc Start -->'' @ nl @ ''T'' @ nl @ ''<!-- ADOPipelineDoc End -->'' \<and>
   fst (writeFile (Some ''README.md'') [mdStartStr, ''T'', mdEndStr]
      ((doc_world ''README.md'' ''<!-- ADOPipelineDoc Start -->old<!-- ADOPipelineDoc End -->'')
         \<lparr>replace_ok := False\<rparr>)) = Inl OSError \<and>
   files (snd (writeFile (Some ''README.md'') [mdStartStr, ''T'', mdEndStr]
      ((doc_world ''README.md'' ''<!-- ADOPipelineDoc Start -->old<!-- ADOPipelineDoc End -->'')
         \<lparr>replace_ok := False\<rparr>))) ''README.md''
     = Some (File True True ''<!-- ADOPipelineDoc Start -->old<!-- ADOPipelineDoc End -->'')"
  by (simp add: writeFile_def readFile_def doc_world_def str_find_def mdStartStr_eq mdEndStr_eq
      slice_to_def slice_from_def nl_def Let_def spec_replace_span_def to_disk_def)

section \<open>The row builder\<close>

text \<open>\<^verbatim>\<open>prettyObject\<close> is only called under a test that its key is present, so it returns; a
  valid parameter gives a row and the three flags of \<open>use_col\<close> accumulate by disjunction.\<close>

lemma truthy_get_default: "truthy (dict_get d k (YStr [])) = truthy (dict_get d k YNull)"
  by (simp add: dict_get_def split: option.splits)

lemma prettyObject_present:
  "truthy (dict_get d k YNull) \<Longrightarrow>
   prettyObject dump (YMap d) (Some k) = Inr (replace_nl (strip (dump (dict_get d k YNull))))"
  by (auto simp: prettyObject_def dict_get_def split: option.splits)

lemma build_row_valid:
  assumes "valid_param (YMap d)"
  shows "build_row dump (use_col_of a b c) (YMap d) =
         Inr (use_col_of (a \<or> populates ''displayName'' (YMap d))
                         (b \<or> populates ''values'' (YMap d))
                         (c \<or> populates ''default'' (YMap d)),
              param_row dump (YMap d))"
  using assms
  by (simp add: build_row_def param_row_def use_col_init_def use_col_of_def populates_def
      valid_param_def Let_def prettyObject_present truthy_get_default)

lemma build_row_invalid:
  "\<not> valid_param (YMap d) \<Longrightarrow> build_row dump uc (YMap d) = Inl MissingRequiredField"
  by (auto simp: build_row_def valid_param_def)

lemma valid_param_is_map: "valid_param p \<Longrightarrow> \<exists>d. p = YMap d"
  by (cases p) (auto simp: valid_param_def)

lemma build_rows_valid:
  "\<forall>p \<in> set params. valid_param p \<Longrightarrow>
   build_rows dump (use_col_of a b c) rows params =
     Inr (use_col_of (a \<or> column_used ''displayName'' params)
                     (b \<or> column_used ''values'' params)
                     (c \<or> column_used ''default'' params),
          rows @ map (param_row dump) params)"
proof (induction params arbitrary: a b c rows)
  case Nil
  then show ?case by (simp add: column_used_def)
next
  case (Cons p ps)
  from Cons.prems have "valid_param p" by simp
  then obtain d where p: "p = YMap d" by (cases p) (auto simp: valid_param_def)
  with Cons.prems have v: "valid_param (YMap d)" by simp
  from Cons.prems have r: "\<forall>p \<in> set ps. valid_param p" by simp
  show ?case
    by (simp add: p build_row_valid [OF v] Cons.IH [OF r] column_used_def disj_assoc)
qed

lemma build_rows_missing:
  "\<forall>p \<in> set params. \<exists>d. p = YMap d \<Longrightarrow> \<exists>p \<in> set params. \<not> valid_param p \<Longrightarrow>
   build_rows dump (use_col_of a b c) rows params = Inl MissingRequiredField"
proof (induction params arbitrary: a b c rows)
  case Nil
  then show ?case by simp
next
  case (Cons p ps)
  from Cons.prems(1) obtain d where p: "p = YMap d" by auto
  show ?case
  proof (cases "valid_param p")
    case True
    with Cons.prems(2) have "\<exists>q \<in> set ps. \<not> valid_param q" by auto
    moreover from Cons.prems(1) have "\<forall>q \<in> set ps. \<exists>d. q = YMap d" by simp
    ultimately show ?thesis
      using True Cons.IH by (simp add: p build_row_valid)
  next
    case False
    then show ?thesis by (simp add: p build_row_invalid)
  qed
qed



text \<open>The second loop leaves the surviving columns and, in every row, the entries that are
  not under a dropped column.\<close>

lemma drop_unused_use_col:
  "drop_unused (use_col_of a b c) (heading_order, rows) =
     ([''required'', ''name'', ''type''] @ (if a then [''displayName''] else []) @
        (if b then [''values''] else []) @ (if c then [''default''] else []),
      map (\<lambda>row. filter (\<lambda>kv. (a \<or> fst kv \<noteq> ''displayName'') \<and> (b \<or> fst kv \<noteq> ''values'') \<and>
                               (c \<or> fst kv \<noteq> ''default'')) row) rows)"
  by (cases a; cases b; cases c)
     (auto simp add: use_col_of_def heading_order_def dict_pop_def comp_def intro!: filter_cong)

lemma surviving_flags:
  "surviving params =
     [''required'', ''name'', ''type''] @
     (if column_used ''displayName'' params then [''displayName''] else []) @
     (if column_used ''values'' params then [''values''] else []) @
     (if column_used ''default'' params then [''default''] else [])"
  by (simp add: surviving_def)

lemma kept_flags:
  "kept (surviving params) =
     filter (\<lambda>kv. (column_used ''displayName'' params \<or> fst kv \<noteq> ''displayName'') \<and>
                  (column_used ''values'' params \<or> fst kv \<noteq> ''values'') \<and>
                  (column_used ''default'' params \<or> fst kv \<noteq> ''default''))"
proof
  fix row
  show "kept (surviving params) row =
     filter (\<lambda>kv. (column_used ''displayName'' params \<or> fst kv \<noteq> ''displayName'') \<and>
                  (column_used ''values'' params \<or> fst kv \<noteq> ''values'') \<and>
                  (column_used ''default'' params \<or> fst kv \<noteq> ''default'')) row"
    unfolding kept_def surviving_flags heading_order_def
    by (rule filter_cong) auto
qed

lemma drop_unused_surviving:
  "drop_unused (use_col_of (column_used ''displayName'' params) (column_used ''values'' params)
                  (column_used ''default'' params)) (heading_order, rows) =
   (surviving params, map (kept (surviving params)) rows)"
  unfolding kept_flags unfolding surviving_flags drop_unused_use_col ..

lemma processData_rows_valid:
  assumes "\<forall>p \<in> set params. valid_param p"
  shows "processData_rows dump (YSeq params) =
         Inr (surviving params, map (\<lambda>p. kept (surviving params) (param_row dump p)) params)"
proof -
  have u: "use_col_init = use_col_of False False False"
    by (simp add: use_col_init_def use_col_of_def)
  have "processData_rows dump (YSeq params) =
        Inr (drop_unused (use_col_of (column_used ''displayName'' params)
               (column_used ''values'' params) (column_used ''default'' params))
               (heading_order, map (param_row dump) params))"
    by (simp add: processData_rows_def u build_rows_valid [OF assms])
  then show ?thesis by (simp only: drop_unused_surviving map_map comp_def)
qed

text \<open>Lookups and key sets of the dict operations.\<close>

lemma map_of_filter_key:
  "map_of (filter (\<lambda>kv. P (fst kv)) d) k = (if P k then map_of d k else None)"
  by (induction d) auto

lemma dict_get_kept:
  "k \<in> set order \<Longrightarrow> dict_get (kept order row) k dflt = dict_get row k dflt"
  using map_of_filter_key [of "\<lambda>k. k \<in> set order \<or> k \<notin> set heading_order" row k]
  by (simp add: dict_get_def kept_def)

lemma row_data_kept: "row_data repr order (kept order row) = row_data repr order row"
  by (simp add: row_data_def dict_get_kept)

lemma dict_keys_kept:
  "dict_keys (kept order row) = {k \<in> dict_keys row. k \<in> set order \<or> k \<notin> set heading_order}"
  by (auto simp: dict_keys_def kept_def)

lemma dict_keys_set: "dict_keys (dict_set k v d) = insert k (dict_keys d)"
proof (induction d)
  case Nil
  then show ?case by (simp add: dict_keys_def)
next
  case (Cons kv d)
  obtain k' v' where kv: "kv = (k', v')" by (cases kv)
  from Cons.IH have "set (map fst (dict_set k v d)) = insert k (set (map fst d))"
    by (simp add: dict_keys_def)
  then show ?case unfolding dict_keys_def kv by (cases "k' = k") auto
qed

lemma dict_keys_update: "dict_keys (dict_update r d) = dict_keys r \<union> dict_keys d"
proof (induction d arbitrary: r)
  case Nil
  then show ?case by (simp add: dict_keys_def)
next
  case (Cons kv d)
  obtain k v where kv: "kv = (k, v)" by (cases kv)
  have "dict_keys (dict_update (dict_set k v r) d) = insert k (dict_keys r) \<union> dict_keys d"
    by (simp add: Cons.IH dict_keys_set)
  then show ?case by (auto simp: kv dict_keys_def)
qed

lemma dict_keys_template: "dict_keys object_template = set heading_order"
  by (auto simp: dict_keys_def object_template_def heading_order_def)

lemma map_of_dict_set: "map_of (dict_set k v d) = (map_of d)(k \<mapsto> v)"
  by (induction d) (auto simp: fun_eq_iff)

lemma map_of_dict_update_other:
  "k \<notin> dict_keys d \<Longrightarrow> map_of (dict_update r d) k = map_of r k"
proof (induction d arbitrary: r)
  case Nil
  then show ?case by simp
next
  case (Cons kv d)
  obtain k' v' where kv: "kv = (k', v')" by (cases kv)
  from Cons.prems kv have "k \<noteq> k'" "k \<notin> dict_keys d" by (auto simp: dict_keys_def)
  with Cons.IH [of "dict_set k' v' r"] show ?case by (simp add: kv map_of_dict_set)
qed

lemma param_row_keys:
  assumes "valid_param (YMap d)"
  shows "dict_keys (param_row dump (YMap d)) = set heading_order \<union> dict_keys d"
proof -
  have h: "''required'' \<in> set heading_order" "''default'' \<in> set heading_order"
    "''values'' \<in> set heading_order"
    by (simp_all add: heading_order_def)
  show ?thesis
    using assms h
    by (auto simp: param_row_def build_row_def valid_param_def Let_def prettyObject_present
        dict_keys_set dict_keys_update dict_keys_template)
qed

lemma surviving_subset: "set (surviving params) \<subseteq> set heading_order"
  by (auto simp: surviving_def heading_order_def)

lemma kept_row_keys:
  assumes "valid_param (YMap d)"
  shows "dict_keys (kept (surviving params) (param_row dump (YMap d))) =
         set (surviving params) \<union> (dict_keys d - set heading_order)"
  using surviving_subset [of params] by (auto simp: dict_keys_kept param_row_keys [OF assms])


lemma populates_spec_populates: "populates k p \<Longrightarrow> spec_populates k p"
proof -
  have "truthy v \<Longrightarrow> nonempty v" for v by (cases v) auto
  then show "populates k p \<Longrightarrow> spec_populates k p"
    by (cases p) (auto simp: populates_def spec_populates_def dict_get_def split: option.splits)
qed

text \<open>The \<^verbatim>\<open>required\<close> entry of a row: empty when the parameter has a truthy default;
  \<^verbatim>\<open>Yes\<close> when it has none and carries no key \<^verbatim>\<open>required\<close> of its own.\<close>

lemma required_cell_with_default:
  assumes "valid_param (YMap d)" and "populates ''default'' (YMap d)"
  shows "dict_get (param_row dump (YMap d)) ''required'' dflt = YStr []"
  using assms
  by (auto simp: param_row_def build_row_def valid_param_def populates_def Let_def
      prettyObject_present truthy_get_default dict_get_def map_of_dict_set)

lemma required_cell_without_default:
  assumes "valid_param (YMap d)" and "\<not> populates ''default'' (YMap d)"
    and "''required'' \<notin> dict_keys d"
  shows "dict_get (param_row dump (YMap d)) ''required'' dflt = YStr ''Yes''"
proof -
  have "map_of (dict_update object_template d) ''required'' = Some (YStr ''Yes'')"
    using map_of_dict_update_other [OF assms(3)] by (simp add: object_template_def)
  then show ?thesis
    using assms(1,2)
    by (auto simp: param_row_def build_row_def valid_param_def populates_def Let_def
        prettyObject_present truthy_get_default dict_get_def map_of_dict_set)
qed

text \<open>A default that is present and falsy does not mark the column, and the row holds the
  value itself under \<^verbatim>\<open>default\<close>. The keys of a Python dict are distinct.\<close>

lemma map_of_dict_update_distinct:
  "distinct (map fst d) \<Longrightarrow> map_of d k = Some v \<Longrightarrow> map_of (dict_update r d) k = Some v"
proof (induction d arbitrary: r)
  case Nil
  then show ?case by simp
next
  case (Cons kv d)
  obtain k' v' where kv: "kv = (k', v')" by (cases kv)
  show ?case
  proof (cases "k' = k")
    case True
    with Cons.prems kv have v: "v' = v" and "k \<notin> dict_keys d" by (auto simp: dict_keys_def)
    then show ?thesis
      using map_of_dict_update_other [of k d "dict_set k v r"] True
      by (simp add: kv map_of_dict_set)
  next
    case False
    with Cons.prems kv have "distinct (map fst d)" "map_of d k = Some v" by auto
    from Cons.IH [OF this] show ?thesis by (simp add: kv)
  qed
qed

lemma falsy_default_cell:
  assumes "valid_param (YMap d)" and "distinct (map fst d)"
    and "map_of d ''default'' = Some v" and "\<not> truthy v"
  shows "\<not> populates ''default'' (YMap d) \<and>
         dict_get (param_row dump (YMap d)) ''default'' dflt = v"
proof -
  have "map_of (dict_update object_template d) ''default'' = Some v"
    using map_of_dict_update_distinct [OF assms(2,3)] .
  then show ?thesis
    using assms(1,3,4)
    by (auto simp: param_row_def build_row_def valid_param_def populates_def Let_def
        prettyObject_present truthy_get_default dict_get_def map_of_dict_set)
qed

text \<open>
  A field under a key that is none of the six column names changes neither the validity of
  the parameter, nor the columns it populates, nor any cell of its row: the table is the
  same with and without it.
\<close>

lemma dict_update_append: "dict_update r (d @ e) = dict_update (dict_update r d) e"
  by (induction d arbitrary: r) auto

lemma dict_get_append_other:
  "k' \<noteq> k \<Longrightarrow> dict_get (d @ [(k, v)]) k' dflt = dict_get d k' dflt"
  by (simp add: dict_get_def map_add_def split: option.splits)

lemma prettyObject_append_other:
  "k' \<noteq> k \<Longrightarrow> prettyObject dump (YMap (d @ [(k, v)])) (Some k') = prettyObject dump (YMap d) (Some k')"
  by (simp add: prettyObject_def map_add_def split: option.splits)

lemma dict_get_set_other:
  "k' \<noteq> k \<Longrightarrow> dict_get (dict_set k v d) k' dflt = dict_get d k' dflt"
  by (simp add: dict_get_def map_of_dict_set)

lemma dict_get_set_same: "dict_get (dict_set k v d) k dflt = v"
  by (simp add: dict_get_def map_of_dict_set)

lemma unknown_field_populates:
  assumes "k \<notin> set heading_order" and "c \<in> set heading_order"
  shows "populates c (YMap (d @ [(k, v)])) = populates c (YMap d)"
proof -
  from assms have "c \<noteq> k" by auto
  then show ?thesis by (simp add: populates_def dict_get_append_other)
qed

lemma unknown_field_valid:
  "k \<notin> {''name'', ''type''} \<Longrightarrow> valid_param (YMap (d @ [(k, v)])) = valid_param (YMap d)"
  by (auto simp: valid_param_def dict_get_append_other)

lemma unknown_field_cell:
  assumes k: "k \<notin> set heading_order" and c: "c \<in> set heading_order"
    and valid: "valid_param (YMap d)"
  shows "dict_get (param_row dump (YMap (d @ [(k, v)]))) c dflt =
         dict_get (param_row dump (YMap d)) c dflt"
proof -
  from k c have ne: "c \<noteq> k" by auto
  from k have n: "''name'' \<noteq> k" "''type'' \<noteq> k" "''default'' \<noteq> k" "''values'' \<noteq> k"
    "''displayName'' \<noteq> k" "''required'' \<noteq> k"
    by (auto simp: heading_order_def)
  have u: "dict_update object_template (d @ [(k, v)]) = dict_set k v (dict_update object_template d)"
    by (simp add: dict_update_append)
  have g: "dict_get (dict_set k v r) c x = dict_get r c x" for r x
    using ne by (simp add: dict_get_set_other)
  have s: "dict_get (dict_set a b (dict_set k v r)) c x = dict_get (dict_set a b r) c x" for a b r x
    using ne by (simp add: dict_get_def map_of_dict_set)
  have t: "dict_get (dict_set a' b' (dict_set a b (dict_set k v r))) c x =
           dict_get (dict_set a' b' (dict_set a b r)) c x" for a b a' b' r x
    using ne by (simp add: dict_get_def map_of_dict_set)
  have t3: "dict_get (dict_set a'' b'' (dict_set a' b' (dict_set a b (dict_set k v r)))) c x =
           dict_get (dict_set a'' b'' (dict_set a' b' (dict_set a b r))) c x" for a b a' b' a'' b'' r x
    using ne by (simp add: dict_get_def map_of_dict_set)
  from valid have valid': "valid_param (YMap (d @ [(k, v)]))"
    using n by (simp add: valid_param_def dict_get_append_other)
  show ?thesis
    using valid valid' n
    by (simp add: param_row_def build_row_def valid_param_def Let_def use_col_init_def
        dict_get_append_other prettyObject_append_other prettyObject_present truthy_get_default
        u g s t t3)
qed

lemma unknown_field_row_data:
  assumes "k \<notin> set heading_order" and "set order \<subseteq> set heading_order"
    and "valid_param (YMap d)"
  shows "row_data repr order (param_row dump (YMap (d @ [(k, v)]))) =
         row_data repr order (param_row dump (YMap d))"
  using assms by (auto simp: row_data_def unknown_field_cell)

text \<open>The example of two parameters, the second with a default.\<close>

lemma example_params_valid: "\<forall>p \<in> set example_params. valid_param p"
  by (simp add: example_params_def valid_param_def dict_get_def)

lemma example_table:
  "processData (\<lambda>v. []) (\<lambda>v. ''3'') None (YSeq example_params) =
     Inr [''| required | name | type | default |'', ''| :-: | :-- | :-- | :-- |'',
          ''| Yes | env | string |  |'', ''|  | replicas | number | 3 |'']"
  by code_simp


text \<open>The table of a list of valid parameters, and the fields it ignores.\<close>

lemma processData_valid:
  assumes "\<forall>p \<in> set params. valid_param p"
  shows "processData dump repr mdFile (YSeq params) =
         Inr (render_table repr mdFile (surviving params) (map (param_row dump) params))"
  by (simp add: processData_def processData_rows_valid [OF assms] render_table_def
      row_data_kept comp_def)

lemma unknown_field_surviving:
  assumes "k \<notin> set heading_order"
  shows "surviving (ps @ YMap (d @ [(k, v)]) # qs) = surviving (ps @ YMap d # qs)"
proof -
  have "column_used c (ps @ YMap (d @ [(k, v)]) # qs) = column_used c (ps @ YMap d # qs)"
    if "c \<in> set heading_order" for c
    using unknown_field_populates [OF assms that] by (simp add: column_used_def)
  then show ?thesis by (simp add: surviving_def heading_order_def)
qed

lemma unknown_field_ignored:
  assumes valid: "\<forall>p \<in> set (ps @ YMap d # qs). valid_param p"
    and k: "k \<notin> set heading_order"
  shows "processData dump repr mdFile (YSeq (ps @ YMap (d @ [(k, v)]) # qs)) =
         processData dump repr mdFile (YSeq (ps @ YMap d # qs))"
proof -
  from k have "k \<notin> {''name'', ''type''}" by (auto simp: heading_order_def)
  from unknown_field_valid [OF this] valid
  have valid': "\<forall>p \<in> set (ps @ YMap (d @ [(k, v)]) # qs). valid_param p" by auto
  from valid have vd: "valid_param (YMap d)" by simp
  have r: "row_data repr (surviving (ps @ YMap d # qs)) (param_row dump (YMap (d @ [(k, v)]))) =
           row_data repr (surviving (ps @ YMap d # qs)) (param_row dump (YMap d))"
    using unknown_field_row_data [OF k surviving_subset vd] .
  show ?thesis
    by (simp add: processData_valid [OF valid] processData_valid [OF valid']
        unknown_field_surviving [OF k] render_table_def r)
qed

text \<open>
  \<^verbatim>\<open>table_rows\<close> has one entry per parameter after the header and the separator (and
  between the markers when a target is given), and the entry at position \<open>i\<close> is the row
  built from the parameter at position \<open>i\<close>. The lines of the printed text are the entries
  of \<^verbatim>\<open>table_rows\<close> when no entry holds a line break.
\<close>

lemma table_rows_follow_parameters:
  assumes "\<forall>p \<in> set params. valid_param p"
  shows "\<exists>lines.
           processData dump repr mdFile (YSeq params) = Inr lines \<and>
           length lines = (if mdFile = None then 2 else 4) + length params \<and>
           (\<forall>i < length params.
              lines ! ((if mdFile = None then 2 else 3) + i) =
                row_text (row_data repr (surviving params) (param_row dump (params ! i))))"
proof -
  let ?rows = "map (\<lambda>p. kept (surviving params) (param_row dump p)) params"
  let ?lines = "render_table repr mdFile (surviving params) ?rows"
  have p: "processData dump repr mdFile (YSeq params) = Inr ?lines"
    by (simp add: processData_def processData_rows_valid [OF assms])
  have l: "length ?lines = (if mdFile = None then 2 else 4) + length params"
    by (simp add: render_table_def)
  have n: "\<forall>i < length params.
              ?lines ! ((if mdFile = None then 2 else 3) + i) =
                row_text (row_data repr (surviving params) (param_row dump (params ! i)))"
    by (simp add: render_table_def nth_append row_data_kept)
  from p l n show ?thesis by blast
qed

lemma split_lines_no_nl: "CHR 0x0A \<notin> set x \<Longrightarrow> split_lines x = [x]"
  by (induction x) auto

lemma split_lines_append:
  "CHR 0x0A \<notin> set x \<Longrightarrow> split_lines (x @ CHR 0x0A # r) = x # split_lines r"
  by (induction x) auto

lemma split_lines_join:
  "rows \<noteq> [] \<Longrightarrow> \<forall>r \<in> set rows. CHR 0x0A \<notin> set r \<Longrightarrow> split_lines (join nl rows) = rows"
proof (induction nl rows rule: join.induct)
  case 1
  then show ?case by simp
next
  case (2 x)
  then show ?case by (simp add: split_lines_no_nl)
next
  case (3 x y ys)
  then show ?case by (simp add: nl_def split_lines_append)
qed

section \<open>The table\<close>




text \<open>
  Claim C4. The statement is that a parameter with no default renders its required cell as
  \<^verbatim>\<open>Yes\<close>. Line 230 copies every key of the parameter into the row, also a key
  \<^verbatim>\<open>required\<close>, over the \<^verbatim>\<open>Yes\<close> of the template; with no default nothing resets it
  (compare \<open>required_cell_without_default\<close>, which needs the key to be absent).
\<close>

theorem stray_required_replaces_yes:
  "processData (\<lambda>v. []) (\<lambda>v. []) None
     (YSeq [YMap [(''name'', YStr ''env''), (''type'', YStr ''string''), (''required'', YStr ''maybe'')]]) =
   Inr [''| required | name | type |'', ''| :-: | :-- | :-- |'', ''| maybe | env | string |'']"
  by code_simp

text \<open>
  Claim C5. The statement is that the number of rendered data lines equals the number of
  parameters. \<^verbatim>\<open>prettyObject\<close> turns every line break of a \<^verbatim>\<open>values\<close> entry and of the
  default of an \<^verbatim>\<open>object\<close> parameter into \<^verbatim>\<open><br/>\<close>, so that the cell stays on one line;
  a string cell is rendered by \<^verbatim>\<open>str\<close> as it is (line 264). One parameter whose string
  default holds a line break gives one entry of \<^verbatim>\<open>table_rows\<close> and two printed data lines.
\<close>

theorem multiline_default_spans_two_lines:
  "processData (\<lambda>v. []) (\<lambda>v. []) None
     (YSeq [YMap [(''name'', YStr ''motd''), (''type'', YStr ''string''),
                  (''default'', YStr (''hello'' @ [CHR 0x0A] @ ''world''))]]) =
   Inr [''| required | name | type | default |'', ''| :-: | :-- | :-- | :-- |'',
        ''|  | motd | string | hello'' @ [CHR 0x0A] @ ''world |''] \<and>
   split_lines (join nl [''| required | name | type | default |'', ''| :-: | :-- | :-- | :-- |'',
        ''|  | motd | string | hello'' @ [CHR 0x0A] @ ''world |'']) =
   [''| required | name | type | default |'', ''| :-: | :-- | :-- | :-- |'',
    ''|  | motd | string | hello'', ''world |'']"
  by code_simp

text \<open>
  Claim C6, as the program has it. For a list of valid parameters every row holds, of the
  six column keys, exactly the surviving columns; the keys of a parameter outside the six
  columns stay in its row, so the key set of the row at position \<open>i\<close> is the surviving
  columns together with the other keys of the parameter at position \<open>i\<close>.
\<close>

theorem row_keys_columns_and_extra_fields:
  assumes "\<forall>p \<in> set params. valid_param p"
  shows "\<exists>rows.
           processData_rows dump (YSeq params) = Inr (surviving params, rows) \<and>
           length rows = length params \<and>
           (\<forall>row \<in> set rows. dict_keys row \<inter> set heading_order = set (surviving params)) \<and>
           (\<forall>i < length params. \<forall>d. params ! i = YMap d \<longrightarrow>
              dict_keys (rows ! i) = set (surviving params) \<union> (dict_keys d - set heading_order))"
proof -
  let ?rows = "map (\<lambda>p. kept (surviving params) (param_row dump p)) params"
  have r: "processData_rows dump (YSeq params) = Inr (surviving params, ?rows)"
    using processData_rows_valid [OF assms] .
  have a: "\<forall>row \<in> set ?rows. dict_keys row \<inter> set heading_order = set (surviving params)"
  proof
    fix row assume "row \<in> set ?rows"
    then obtain p where p: "p \<in> set params" and row: "row = kept (surviving params) (param_row dump p)"
      by auto
    from p assms have v: "valid_param p" by simp
    then obtain d where d: "p = YMap d" using valid_param_is_map by blast
    from v d have "dict_keys row = set (surviving params) \<union> (dict_keys d - set heading_order)"
      by (simp add: row kept_row_keys)
    with surviving_subset [of params]
    show "dict_keys row \<inter> set heading_order = set (surviving params)" by blast
  qed
  have b: "\<forall>i < length params. \<forall>d. params ! i = YMap d \<longrightarrow>
              dict_keys (?rows ! i) = set (surviving params) \<union> (dict_keys d - set heading_order)"
  proof (intro allI impI)
    fix i d assume i: "i < length params" and d: "params ! i = YMap d"
    from i assms have "valid_param (params ! i)" by simp
    with d have "valid_param (YMap d)" by simp
    from kept_row_keys [OF this] i d
    show "dict_keys (?rows ! i) = set (surviving params) \<union> (dict_keys d - set heading_order)"
      by simp
  qed
  from r a b show ?thesis by (intro exI [of _ ?rows]) simp
qed

theorem row_keys_witness:
  "valid_param (example_params ! 0) \<and> valid_param (example_params ! 1) \<and>
   (\<exists>rows. processData_rows (\<lambda>v. []) (YSeq example_params) = Inr (surviving example_params, rows) \<and>
      length rows = 2 \<and>
      dict_keys (rows ! 0) = {''required'', ''name'', ''type'', ''default''} \<and>
      dict_keys (rows ! 1) = {''required'', ''name'', ''type'', ''default''})"
proof -
  have v: "valid_param (example_params ! 0) \<and> valid_param (example_params ! 1)"
    by (simp add: example_params_def valid_param_def dict_get_def)
  have s: "surviving example_params = [''required'', ''name'', ''type'', ''default'']"
    by code_simp
  from row_keys_columns_and_extra_fields [OF example_params_valid, of "\<lambda>v. []"]
  obtain rows where r: "processData_rows (\<lambda>v. []) (YSeq example_params) = Inr (surviving example_params, rows)"
    and l: "length rows = length example_params"
    and k: "\<forall>i < length example_params. \<forall>d. example_params ! i = YMap d \<longrightarrow>
              dict_keys (rows ! i) = set (surviving example_params) \<union> (dict_keys d - set heading_order)"
    by blast
  have n: "length example_params = 2"
    and e0: "example_params ! 0 = YMap [(''name'', YStr ''env''), (''type'', YStr ''string'')]"
    and e1: "example_params ! 1 =
             YMap [(''name'', YStr ''replicas''), (''type'', YStr ''number''), (''default'', YInt 3)]"
    by (simp_all add: example_params_def)
  have k0: "dict_keys (rows ! 0) = {''required'', ''name'', ''type'', ''default''}"
    using k [rule_format, of 0, OF _ e0] n
    by (auto simp: s dict_keys_def heading_order_def)
  have k1: "dict_keys (rows ! 1) = {''required'', ''name'', ''type'', ''default''}"
    using k [rule_format, of 1, OF _ e1] n
    by (auto simp: s dict_keys_def heading_order_def)
  from l n have "length rows = 2" by simp
  with v r k0 k1 show ?thesis by blast
qed

text \<open>Claim C6 as it is worded fails when two parameters carry different unrecognized
  fields: the rows that are rendered differ in their keys.\<close>

theorem row_keys_counterexample:
  "processData_rows (\<lambda>v. [])
     (YSeq [YMap [(''name'', YStr ''env''), (''type'', YStr ''string''), (''owner'', YStr ''ops'')],
            YMap [(''name'', YStr ''replicas''), (''type'', YStr ''number'')]]) =
   Inr ([''required'', ''name'', ''type''],
        [[(''required'', YStr ''Yes''), (''name'', YStr ''env''), (''type'', YStr ''string''),
          (''owner'', YStr ''ops'')],
         [(''required'', YStr ''Yes''), (''name'', YStr ''replicas''), (''type'', YStr ''number'')]]) \<and>
   dict_keys [(''required'', YStr ''Yes''), (''name'', YStr ''env''), (''type'', YStr ''string''),
              (''owner'', YStr ''ops'')] \<noteq>
   dict_keys [(''required'', YStr ''Yes''), (''name'', YStr ''replicas''), (''type'', YStr ''number'')]"
proof -
  have "processData_rows (\<lambda>v. [])
     (YSeq [YMap [(''name'', YStr ''env''), (''type'', YStr ''string''), (''owner'', YStr ''ops'')],
            YMap [(''name'', YStr ''replicas''), (''type'', YStr ''number'')]]) =
   Inr ([''required'', ''name'', ''type''],
        [[(''required'', YStr ''Yes''), (''name'', YStr ''env''), (''type'', YStr ''string''),
          (''owner'', YStr ''ops'')],
         [(''required'', YStr ''Yes''), (''name'', YStr ''replicas''), (''type'', YStr ''number'')]])"
    by code_simp
  moreover have "''owner'' \<in> dict_keys [(''required'', YStr ''Yes''), (''name'', YStr ''env''),
              (''type'', YStr ''string''), (''owner'', YStr ''ops'')]"
    by (simp add: dict_keys_def)
  moreover have "''owner'' \<notin> dict_keys [(''required'', YStr ''Yes''), (''name'', YStr ''replicas''),
              (''type'', YStr ''number'')]"
    by (simp add: dict_keys_def)
  ultimately show ?thesis by metis
qed

text \<open>
  Claim C7. The statement is that fields outside \<^verbatim>\<open>name\<close>, \<^verbatim>\<open>type\<close>, \<^verbatim>\<open>displayName\<close>,
  \<^verbatim>\<open>default\<close> and \<^verbatim>\<open>values\<close> do not change the table, in particular a field
  \<^verbatim>\<open>required\<close>. A field under a key that is not a column name is ignored
  (\<open>unknown_field_ignored\<close>), but \<^verbatim>\<open>required\<close> is a column name: the same parameter with
  and without such a field renders two different required cells.
\<close>

theorem unknown_required_field_changes_cell:
  "processData (\<lambda>v. []) (\<lambda>v. []) None
     (YSeq [YMap [(''name'', YStr ''region''), (''type'', YStr ''string''), (''required'', YStr ''optional'')]]) =
   Inr [''| required | name | type |'', ''| :-: | :-- | :-- |'', ''| optional | region | string |''] \<and>
   processData (\<lambda>v. []) (\<lambda>v. []) None
     (YSeq [YMap [(''name'', YStr ''region''), (''type'', YStr ''string'')]]) =
   Inr [''| required | name | type |'', ''| :-: | :-- | :-- |'', ''| Yes | region | string |'']"
  by code_simp

section \<open>The run\<close>




text \<open>
  Claim C9. When the configuration file is read and parsed to a value that is neither null
  nor a mapping, \<^verbatim>\<open>parseYAML\<close> ends with Python's \<open>AttributeError\<close>, which is not an
  \<^verbatim>\<open>ADOPipelineDocException\<close>: none of \<open>EmptyConfig\<close>, \<open>NoParameters\<close> and
  \<open>MalformedConfig\<close> is produced.
\<close>

theorem non_mapping_document_raises_untyped:
  assumes "readFile w yf = Inr content"
    and "safe_load content = Some data"
    and "data \<noteq> YNull"
    and "\<forall>d. data \<noteq> YMap d"
  shows "parseYAML safe_load w yf = Inl AttributeError \<and> \<not> is_taxonomy AttributeError"
  using assms by (cases data) (simp_all add: parseYAML_def)

theorem non_mapping_document_witness:
  "readFile example_world ''pipeline.yml'' = Inr ''parameters: []'' \<and>
   example_load (YSeq [YStr ''env'']) ''parameters: []'' = Some (YSeq [YStr ''env'']) \<and>
   parseYAML (example_load (YSeq [YStr ''env''])) example_world ''pipeline.yml'' = Inl AttributeError \<and>
   \<not> is_taxonomy AttributeError"
proof -
  have r: "readFile example_world ''pipeline.yml'' = Inr ''parameters: []''"
    by (simp add: readFile_def example_world_def)
  have l: "example_load (YSeq [YStr ''env'']) ''parameters: []'' = Some (YSeq [YStr ''env''])"
    by (simp add: example_load_def)
  have n: "YSeq [YStr ''env''] \<noteq> YNull" by simp
  have m: "\<forall>d. YSeq [YStr ''env''] \<noteq> YMap d" by simp
  from non_mapping_document_raises_untyped
         [of example_world "''pipeline.yml''" "''parameters: []''" "example_load (YSeq [YStr ''env''])"
             "YSeq [YStr ''env'']", OF r l n m] r l
  show ?thesis by simp
qed

text \<open>
  Claim C10. The statement is that for a parameter whose default is present and falsy the
  required cell remains \<^verbatim>\<open>Yes\<close>, the parameter does not mark the default column, and
  the falsy value is rendered when another parameter keeps the column. The required cell
  is not \<^verbatim>\<open>Yes\<close> when the parameter also carries a key \<^verbatim>\<open>required\<close>: line 230 has copied
  it into the row and the falsy default does not reset it. The other parts hold
  (\<open>falsy_default_cell\<close>), and so does the first when the key is absent
  (\<open>required_cell_without_default\<close>).
\<close>

theorem falsy_default_with_stray_required:
  "processData (\<lambda>v. []) (\<lambda>v. ''3'') None
     (YSeq [YMap [(''name'', YStr ''tag''), (''type'', YStr ''string''), (''default'', YStr []),
                  (''required'', YStr ''later'')],
            YMap [(''name'', YStr ''replicas''), (''type'', YStr ''number''), (''default'', YInt 3)]]) =
   Inr [''| required | name | type | default |'', ''| :-: | :-- | :-- | :-- |'',
        ''| later | tag | string |  |'', ''|  | replicas | number | 3 |'']"
  by code_simp

end
